theory Spec2Isabelle
  imports Main "HOL-Library.FSet" "HOL-Library.Multiset"
begin

section \<open>Constraint graphs (csps.py, class ProblemaCSP)\<close>

text \<open>
  A constraint graph carries the variables \<open>X\<close>, the domains \<open>D\<close>, the neighbours \<open>N\<close>,
  the binary predicate and, once \<open>asignacion_completa\<close> has run, the counter
  \<open>backtracking\<close>. The solvers only read \<open>X\<close>, \<open>N\<close> and the predicate (record
  \<open>csp\<close>); they write \<open>D\<close> and \<open>backtracking\<close> (record \<open>estado\<close>), so the Python
  object is a \<open>csp\<close> together with an \<open>estado\<close>.

  \<^item> \<open>X\<close> and every \<open>N x\<close> are Python sets that the solvers only read: their iteration
    order is fixed, and the list is the set in that order.
  \<^item> \<open>D x\<close> is a Python set that the solvers shrink and refill; its iteration order
    after a mutation is unspecified. It is a finite set here, and the places that
    depend on its iteration order (\<open>list(csp.D[x])\<close>, \<open>min(csp.D[x], ...)\<close>) read
    it through the parameter \<open>iter\<close>.
  \<^item> The dictionaries \<open>D\<close> and \<open>N\<close> are read at variables and at neighbours only; they
    are total functions here, so the \<open>KeyError\<close> of a graph whose dictionaries miss a
    variable is outside this model. Different variables hold different set objects.
\<close>

record ('x, 'v) csp =
  X :: "'x list"
  N :: "'x \<Rightarrow> 'x list"
  restriccion_binaria :: "'x \<Rightarrow> 'v \<Rightarrow> 'x \<Rightarrow> 'v \<Rightarrow> bool"

record ('x, 'v) estado =
  D :: "'x \<Rightarrow> 'v fset"
  backtracking :: nat

text \<open>
  What Python leaves open: the iteration order of a domain (\<open>iter\<close>) and the element
  that \<open>set.pop()\<close> takes out of the worklist (\<open>pop_idx\<close>, an index into the
  worklist, taken modulo its length, so that every function is a legal choice).
\<close>

record ('x, 'v) orden =
  iter :: "'v fset \<Rightarrow> 'v list"
  pop_idx :: "('x \<times> 'x) list \<Rightarrow> nat"

text \<open>An assignment is a Python dict: an association list in insertion order.\<close>

type_synonym ('x, 'v) asignacion = "('x \<times> 'v) list"

definition en_asg :: "'x \<Rightarrow> ('x, 'v) asignacion \<Rightarrow> bool" where
  "en_asg x asg = (x \<in> fst ` set asg)"

datatype error = IndexError | ValueError | KeyError | UnboundLocalError

section \<open>The consistency enforcer (consistencia)\<close>

text \<open>The reversal record \<open>dom_red\<close>: a dict from variables to the values removed.\<close>

type_synonym ('x, 'v) dom_red = "'x \<rightharpoonup> 'v fset"

text \<open>\<open>for x in dom_red: csp.D[x].update(dom_red[x])\<close>\<close>

definition restaura :: "('x \<Rightarrow> 'v fset) \<Rightarrow> ('x, 'v) dom_red \<Rightarrow> ('x \<Rightarrow> 'v fset)" where
  "restaura d dr = (\<lambda>x. case dr x of None \<Rightarrow> d x | Some s \<Rightarrow> d x |\<union>| s)"

text \<open>Level 0: the loop over \<open>asg.items()\<close> returns None at the first violated neighbour.\<close>

definition choca_asignados ::
  "('x, 'v) csp \<Rightarrow> ('x, 'v) asignacion \<Rightarrow> 'x \<Rightarrow> 'v \<Rightarrow> bool" where
  "choca_asignados c asg x_i v_i =
     list_ex (\<lambda>(x_j, v_j). x_j \<in> set (N c x_i) \<and> \<not> restriccion_binaria c x_i v_i x_j v_j) asg"

text \<open>
  Level 1: the loop over \<open>csp.N[x_i]\<close>. The state is the domain map and the reversal
  record; a wiped-out neighbour restores every recorded removal and returns None.
\<close>

fun poda_vecinos ::
  "('x, 'v) csp \<Rightarrow> ('x, 'v) asignacion \<Rightarrow> 'x \<Rightarrow> 'v \<Rightarrow> 'x list \<Rightarrow>
   ('x \<Rightarrow> 'v fset) \<Rightarrow> ('x, 'v) dom_red \<Rightarrow> ('x, 'v) dom_red option \<times> ('x \<Rightarrow> 'v fset)" where
  "poda_vecinos c asg x_i v_i [] d dr = (Some dr, d)"
| "poda_vecinos c asg x_i v_i (x_j # xs) d dr =
     (if en_asg x_j asg then poda_vecinos c asg x_i v_i xs d dr
      else
        let val_set = ffilter (\<lambda>v_j. \<not> restriccion_binaria c x_i v_i x_j v_j) (d x_j);
            dr' = (if val_set \<noteq> {||} then dr(x_j \<mapsto> val_set) else dr);
            d' = (if val_set \<noteq> {||} then d(x_j := d x_j |-| val_set) else d)
        in if d' x_j = {||} then (None, restaura d' dr')
           else poda_vecinos c asg x_i v_i xs d' dr')"

text \<open>
  Level 2: the worklist \<open>pendientes\<close>. It starts with every ordered pair of
  unassigned variables \<open>(x_i, x_j)\<close>, \<open>x_j\<close> a neighbour of \<open>x_i\<close>.
\<close>

definition pendientes_ini :: "('x, 'v) csp \<Rightarrow> ('x, 'v) asignacion \<Rightarrow> ('x \<times> 'x) list" where
  "pendientes_ini c asg =
     remdups (concat (map (\<lambda>x_i. map (Pair x_i) (filter (\<lambda>x_j. \<not> en_asg x_j asg) (N c x_i)))
                          (filter (\<lambda>x_i. \<not> en_asg x_i asg) (X c))))"

text \<open>The values of \<open>D[x_a]\<close> with no compatible value in \<open>D[x_b]\<close> (the for/else).\<close>

definition sin_soporte ::
  "('x, 'v) csp \<Rightarrow> ('x \<Rightarrow> 'v fset) \<Rightarrow> 'x \<Rightarrow> 'x \<Rightarrow> 'v fset" where
  "sin_soporte c d x_a x_b =
     ffilter (\<lambda>v_a. \<not> fBex (d x_b) (\<lambda>v_b. restriccion_binaria c x_a v_a x_b v_b)) (d x_a)"

text \<open>\<open>pendientes.update({(x_a, x_j) for x_j in csp.N[x_a] if x_j not in asg})\<close>\<close>

definition reencola ::
  "('x, 'v) csp \<Rightarrow> ('x, 'v) asignacion \<Rightarrow> 'x \<Rightarrow> ('x \<times> 'x) list \<Rightarrow> ('x \<times> 'x) list" where
  "reencola c asg x_a pend =
     pend @ filter (\<lambda>p. p \<notin> set pend)
              (remdups (map (Pair x_a) (filter (\<lambda>x_j. \<not> en_asg x_j asg) (N c x_a))))"

text \<open>\<open>pendientes.pop()\<close>: the chosen pair, and the worklist without it.\<close>

definition saca :: "('x, 'v) orden \<Rightarrow> ('x \<times> 'x) list \<Rightarrow> ('x \<times> 'x) \<times> ('x \<times> 'x) list" where
  "saca ord pend =
     (let p = pend ! (pop_idx ord pend mod length pend) in (p, removeAll p pend))"

text \<open>
  One iteration of \<open>while pendientes:\<close> on a non-empty worklist: the outcome is either
  the return of None (with the domains restored) or the state for the next iteration.
\<close>

datatype ('x, 'v) paso_ac3 =
    Falla "'x \<Rightarrow> 'v fset"
  | Sigue "('x \<times> 'x) list" "'x \<Rightarrow> 'v fset" "('x, 'v) dom_red"

definition paso_pendientes ::
  "('x, 'v) csp \<Rightarrow> ('x, 'v) orden \<Rightarrow> ('x, 'v) asignacion \<Rightarrow>
   ('x \<times> 'x) list \<Rightarrow> ('x \<Rightarrow> 'v fset) \<Rightarrow> ('x, 'v) dom_red \<Rightarrow> ('x, 'v) paso_ac3" where
  "paso_pendientes c ord asg pend d dr =
     (let ((x_a, x_b), pend1) = saca ord pend;
          val_set = sin_soporte c d x_a x_b
      in if val_set \<noteq> {||} then
           let dr' = dr(x_a \<mapsto> (case dr x_a of None \<Rightarrow> {||} | Some s \<Rightarrow> s) |\<union>| val_set);
               d' = d(x_a := d x_a |-| val_set)
           in if d' x_a = {||} then Falla (restaura d' dr')
              else Sigue (reencola c asg x_a pend1) d' dr'
         else Sigue pend1 d dr)"

text \<open>The measure of the loop: the sizes of the domains that can still shrink.\<close>

definition peso :: "('x \<times> 'x) list \<Rightarrow> ('x \<Rightarrow> 'v fset) \<Rightarrow> nat" where
  "peso pend d = (\<Sum>x \<in> fst ` set pend. fcard (d x))"

lemma saca_mem:
  assumes "pend \<noteq> []" and "saca ord pend = (p, pend1)"
  shows "p \<in> set pend" and "set pend1 = set pend - {p}" and "length pend1 < length pend"
proof -
  have lt: "pop_idx ord pend mod length pend < length pend" using assms(1) by simp
  have p: "p = pend ! (pop_idx ord pend mod length pend)" and p1: "pend1 = removeAll p pend"
    using assms(2) by (auto simp: saca_def Let_def)
  show "p \<in> set pend" using lt p by simp
  then show "length pend1 < length pend" unfolding p1
    by (simp add: length_removeAll_less)
  show "set pend1 = set pend - {p}" unfolding p1 by simp
qed

lemma peso_mono:
  assumes "fst ` set pend' \<subseteq> fst ` set pend" and "\<And>x. fcard (d' x) \<le> fcard (d x)"
  shows "peso pend' d' \<le> peso pend d"
proof -
  have "peso pend' d' \<le> (\<Sum>x \<in> fst ` set pend'. fcard (d x))"
    unfolding peso_def by (rule sum_mono) (rule assms(2))
  also have "\<dots> \<le> peso pend d" unfolding peso_def
    by (rule sum_mono2) (use assms(1) in auto)
  finally show ?thesis .
qed

lemma peso_less:
  assumes sub: "fst ` set pend' \<subseteq> fst ` set pend" and le: "\<And>x. fcard (d' x) \<le> fcard (d x)"
    and a: "a \<in> fst ` set pend" and lt: "fcard (d' a) < fcard (d a)"
  shows "peso pend' d' < peso pend d"
proof -
  let ?S = "fst ` set pend" and ?S' = "fst ` set pend'"
  have fin: "finite ?S" by simp
  have "peso pend' d' \<le> (\<Sum>x \<in> ?S. fcard (d' x))" unfolding peso_def
    by (rule sum_mono2) (use sub in auto)
  also have "\<dots> < (\<Sum>x \<in> ?S. fcard (d x))"
    by (rule sum_strict_mono_ex1) (use fin le a lt in auto)
  finally show ?thesis by (simp add: peso_def)
qed

lemma sin_soporte_sub: "sin_soporte c d x_a x_b |\<subseteq>| d x_a"
  by (auto simp: sin_soporte_def)

lemma paso_pendientes_baja:
  assumes ne: "pend \<noteq> []" and st: "paso_pendientes c ord asg pend d dr = Sigue pend' d' dr'"
  shows "peso pend' d' < peso pend d \<or> (peso pend' d' \<le> peso pend d \<and> length pend' < length pend)"
proof -
  obtain x_a x_b pend1 where sa: "saca ord pend = ((x_a, x_b), pend1)"
    by (metis prod.exhaust)
  note m = saca_mem[OF ne sa]
  let ?vs = "sin_soporte c d x_a x_b"
  show ?thesis
  proof (cases "?vs = {||}")
    case True
    with st sa have "pend' = pend1" "d' = d" by (auto simp: paso_pendientes_def Let_def)
    moreover have "peso pend1 d \<le> peso pend d"
      by (rule peso_mono) (use m in auto)
    ultimately show ?thesis using m(3) by simp
  next
    case False
    with st sa have d': "d' = d(x_a := d x_a |-| ?vs)" and p': "pend' = reencola c asg x_a pend1"
      by (auto simp: paso_pendientes_def Let_def split: if_splits)
    have "fcard (d x_a |-| ?vs) < fcard (d x_a)"
    proof (rule pfsubset_fcard_mono)
      show "d x_a |-| ?vs |\<subset>| d x_a" using False sin_soporte_sub[of c d x_a x_b] by auto
    qed
    then have lt: "fcard (d' x_a) < fcard (d x_a)" by (simp add: d')
    have le: "\<And>x. fcard (d' x) \<le> fcard (d x)"
      by (auto simp: d' intro!: fcard_mono)
    have xa: "x_a \<in> fst ` set pend" using m(1) by force
    have "set pend' \<subseteq> set pend1 \<union> Pair x_a ` UNIV"
      by (auto simp: p' reencola_def)
    then have "fst ` set pend' \<subseteq> fst ` set pend1 \<union> {x_a}" by force
    moreover have "fst ` set pend1 \<subseteq> fst ` set pend"
      by (rule image_mono) (simp add: m(2))
    ultimately have sub': "fst ` set pend' \<subseteq> fst ` set pend"
      using xa by blast
    have "peso pend' d' < peso pend d"
      by (rule peso_less[where a = x_a]) (use sub' le xa lt in auto)
    then show ?thesis by simp
  qed
qed

text \<open>\<open>while pendientes:\<close> returns the reversal record when the worklist is empty.\<close>

function mientras_pendientes ::
  "('x, 'v) csp \<Rightarrow> ('x, 'v) orden \<Rightarrow> ('x, 'v) asignacion \<Rightarrow>
   ('x \<times> 'x) list \<Rightarrow> ('x \<Rightarrow> 'v fset) \<Rightarrow> ('x, 'v) dom_red \<Rightarrow>
   ('x, 'v) dom_red option \<times> ('x \<Rightarrow> 'v fset)" where
  "mientras_pendientes c ord asg pend d dr =
     (if pend = [] then (Some dr, d)
      else case paso_pendientes c ord asg pend d dr of
             Falla d' \<Rightarrow> (None, d')
           | Sigue pend' d' dr' \<Rightarrow> mientras_pendientes c ord asg pend' d' dr')"
  by pat_completeness auto
termination
proof (relation "measures [\<lambda>(c, ord, asg, pend, d, dr). peso pend d,
                           \<lambda>(c, ord, asg, pend, d, dr). length pend]", goal_cases)
  case 1
  show ?case by simp
next
  case 2
  from paso_pendientes_baja[OF 2(1) 2(2)] show ?case by auto
qed

declare mientras_pendientes.simps [simp del]

text \<open>
  \<open>consistencia(csp, asg, x_i, v_i, consistencia)\<close> on the domain map \<open>d\<close>: the reversal
  record or None, and the domain map it leaves in \<open>csp.D\<close>.
\<close>

definition consistencia ::
  "('x, 'v) csp \<Rightarrow> ('x, 'v) orden \<Rightarrow> ('x, 'v) asignacion \<Rightarrow> 'x \<Rightarrow> 'v \<Rightarrow> int \<Rightarrow>
   ('x \<Rightarrow> 'v fset) \<Rightarrow> ('x, 'v) dom_red option \<times> ('x \<Rightarrow> 'v fset)" where
  "consistencia c ord asg x_i v_i nivel d =
     (if choca_asignados c asg x_i v_i then (None, d)
      else
        let dom_red = [x_i \<mapsto> ffilter (\<lambda>v. v \<noteq> v_i) (d x_i)];
            d0 = d(x_i := {|v_i|})
        in case (if nivel \<ge> 1 then poda_vecinos c asg x_i v_i (N c x_i) d0 dom_red
                 else (Some dom_red, d0)) of
             (None, d1) \<Rightarrow> (None, d1)
           | (Some dr1, d1) \<Rightarrow>
               if nivel = 2 then mientras_pendientes c ord asg (pendientes_ini c asg) d1 dr1
               else (Some dr1, d1))"

section \<open>The heuristics (selecciona_variable, ordena_valores)\<close>

text \<open>
  \<open>max(xs, key=f)\<close> and \<open>min(xs, key=f)\<close> return the first extremal element in iteration
  order and raise ValueError on an empty sequence.
\<close>

fun py_max :: "('a \<Rightarrow> nat) \<Rightarrow> 'a list \<Rightarrow> error + 'a" where
  "py_max f [] = Inl ValueError"
| "py_max f (x # xs) = Inr (fold (\<lambda>y m. if f m < f y then y else m) xs x)"

fun py_min :: "('a \<Rightarrow> nat) \<Rightarrow> 'a list \<Rightarrow> error + 'a" where
  "py_min f [] = Inl ValueError"
| "py_min f (x # xs) = Inr (fold (\<lambda>y m. if f y < f m then y else m) xs x)"

definition selecciona_variable ::
  "('x, 'v) csp \<Rightarrow> ('x \<Rightarrow> 'v fset) \<Rightarrow> ('x, 'v) asignacion \<Rightarrow> error + 'x" where
  "selecciona_variable c d asg =
     (if asg = [] then py_max (\<lambda>x. length (N c x)) (X c)
      else py_min (\<lambda>x. fcard (d x)) (filter (\<lambda>x. \<not> en_asg x asg) (X c)))"

text \<open>
  The key of \<open>ordena_valores\<close>: the sum of the booleans
  \<open>restriccion_binaria(x_i, v_i, x_j, v_j)\<close> over the values of the unassigned neighbours.
\<close>

definition conflictos ::
  "('x, 'v) csp \<Rightarrow> ('x \<Rightarrow> 'v fset) \<Rightarrow> ('x, 'v) asignacion \<Rightarrow> 'x \<Rightarrow> 'v \<Rightarrow> nat" where
  "conflictos c d asg x_i v_i =
     sum_list (map (\<lambda>x_j. fcard (ffilter (\<lambda>v_j. restriccion_binaria c x_i v_i x_j v_j) (d x_j)))
                   (filter (\<lambda>x_j. \<not> en_asg x_j asg) (N c x_i)))"

text \<open>
  \<open>sorted(xs, key=f, reverse=True)\<close>: Python reverses the list, sorts it stably in
  ascending order and reverses the result, so that equal keys keep their order.
\<close>

definition py_sorted_reverse :: "('a \<Rightarrow> nat) \<Rightarrow> 'a list \<Rightarrow> 'a list" where
  "py_sorted_reverse f xs = rev (sort_key f (rev xs))"

definition ordena_valores ::
  "('x, 'v) csp \<Rightarrow> ('x, 'v) orden \<Rightarrow> ('x \<Rightarrow> 'v fset) \<Rightarrow> ('x, 'v) asignacion \<Rightarrow> 'x \<Rightarrow> 'v list" where
  "ordena_valores c ord d asg x_i = py_sorted_reverse (conflictos c d asg x_i) (iter ord (d x_i))"

section \<open>Backtracking (asignacion_grafo_restriccion, asignacion_completa)\<close>

text \<open>
  A \<open>for\<close> loop whose body either goes on to the next element (None) or leaves the
  function (Some), threading the state.
\<close>

fun para_cada :: "'a list \<Rightarrow> ('a \<Rightarrow> 's \<Rightarrow> 'r option \<times> 's) \<Rightarrow> 's \<Rightarrow> 'r option \<times> 's" where
  "para_cada [] cuerpo s = (None, s)"
| "para_cada (v # vs) cuerpo s =
     (case cuerpo v s of
        (Some r, s') \<Rightarrow> (Some r, s')
      | (None, s') \<Rightarrow> para_cada vs cuerpo s')"

lemma para_cada_cong [fundef_cong]:
  assumes "vs = vs'" and "s = s'" and "\<And>v t. v \<in> set vs' \<Longrightarrow> cuerpo v t = cuerpo' v t"
  shows "para_cada vs cuerpo s = para_cada vs' cuerpo' s'"
  unfolding assms(1,2) using assms(3)
  by (induction vs' arbitrary: s') (auto split: prod.splits option.splits)

text \<open>\<open>asignacion[var] = val\<close> and \<open>del asignacion[var]\<close> on a dict in insertion order.\<close>

fun pon :: "'x \<Rightarrow> 'v \<Rightarrow> ('x, 'v) asignacion \<Rightarrow> ('x, 'v) asignacion" where
  "pon k v [] = [(k, v)]"
| "pon k v (p # ps) = (if fst p = k then (k, v) # ps else p # pon k v ps)"

definition borra :: "'x \<Rightarrow> ('x, 'v) asignacion \<Rightarrow> ('x, 'v) asignacion" where
  "borra k asg = filter (\<lambda>p. fst p \<noteq> k) asg"

lemma py_max_in: "py_max f xs = Inr x \<Longrightarrow> x \<in> set xs"
proof -
  have "fold (\<lambda>y m. if f m < f y then y else m) ys a \<in> insert a (set ys)" for ys a
    by (induction ys arbitrary: a) auto
  then show "py_max f xs = Inr x \<Longrightarrow> x \<in> set xs" by (cases xs) auto
qed

lemma py_min_in: "py_min f xs = Inr x \<Longrightarrow> x \<in> set xs"
proof -
  have "fold (\<lambda>y m. if f y < f m then y else m) ys a \<in> insert a (set ys)" for ys a
    by (induction ys arbitrary: a) auto
  then show "py_min f xs = Inr x \<Longrightarrow> x \<in> set xs" by (cases xs) auto
qed

lemma selecciona_variable_libre:
  assumes "selecciona_variable c d asg = Inr var"
  shows "var \<in> set (X c)" and "\<not> en_asg var asg"
proof -
  show "var \<in> set (X c)" using assms
    by (auto simp: selecciona_variable_def split: if_splits dest: py_max_in py_min_in)
  show "\<not> en_asg var asg"
  proof (cases "asg = []")
    case True
    then show ?thesis by (simp add: en_asg_def)
  next
    case False
    with assms have "var \<in> set (filter (\<lambda>x. \<not> en_asg x asg) (X c))"
      by (auto simp: selecciona_variable_def dest: py_min_in)
    then show ?thesis by simp
  qed
qed

lemma claves_pon: "fst ` set (pon k v asg) = insert k (fst ` set asg)"
  by (induction asg) auto

lemma pon_libre: "\<not> en_asg k asg \<Longrightarrow> pon k v asg = asg @ [(k, v)]"
  by (induction asg) (auto simp: en_asg_def)

text \<open>
  The variable that \<open>selecciona_variable\<close> returns is not a key of the assignment, so
  \<open>del asignacion[var]\<close> after \<open>asignacion[var] = val\<close> gives the assignment back: the
  iterations of the loop below all start from \<open>asg\<close>.
\<close>

lemma borra_pon: "\<not> en_asg k asg \<Longrightarrow> borra k (pon k v asg) = asg"
  by (induction asg) (auto simp: en_asg_def borra_def)

text \<open>
  The result is the value returned (an assignment or None) or the exception raised,
  and the state left in \<open>csp.D\<close> and \<open>csp.backtracking\<close>. An exception leaves the loop
  at once, before the domains are restored.
\<close>

function asignacion_grafo_restriccion ::
  "('x, 'v) csp \<Rightarrow> ('x, 'v) orden \<Rightarrow> int \<Rightarrow> ('x, 'v) estado \<Rightarrow> ('x, 'v) asignacion \<Rightarrow>
   (error + ('x, 'v) asignacion option) \<times> ('x, 'v) estado" where
  "asignacion_grafo_restriccion c ord consist s asignacion =
     (if fst ` set asignacion = set (X c) then (Inr (Some asignacion), s)
      else case selecciona_variable c (D s) asignacion of
        Inl e \<Rightarrow> (Inl e, s)
      | Inr var \<Rightarrow>
          (case para_cada (ordena_valores c ord (D s) asignacion var)
                  (\<lambda>val s1.
                     case consistencia c ord asignacion var val consist (D s1) of
                       (None, d2) \<Rightarrow> (None, s1\<lparr>D := d2, backtracking := backtracking s1 + 1\<rparr>)
                     | (Some dominio_reducido, d2) \<Rightarrow>
                         (case asignacion_grafo_restriccion c ord consist (s1\<lparr>D := d2\<rparr>)
                                 (pon var val asignacion) of
                            (Inl e, s3) \<Rightarrow> (Some (Inl e), s3)
                          | (Inr apn, s3) \<Rightarrow>
                              let s4 = s3\<lparr>D := restaura (D s3) dominio_reducido\<rparr>
                              in (case apn of
                                    Some a \<Rightarrow> (Some (Inr a), s4)
                                  | None \<Rightarrow> (None, s4))))
                  s of
             (Some (Inl e), s') \<Rightarrow> (Inl e, s')
           | (Some (Inr a), s') \<Rightarrow> (Inr (Some a), s')
           | (None, s') \<Rightarrow> (Inr None, s'\<lparr>backtracking := backtracking s' + 1\<rparr>)))"
  by pat_completeness auto
termination
proof (relation "measure (\<lambda>(c, ord, consist, s, asg). card (set (X c) - fst ` set asg))", goal_cases)
  case 1
  show ?case by simp
next
  case (2 c ord consist s asg var val s1 x y dr)
  from selecciona_variable_libre[OF 2(2)] have v: "var \<in> set (X c) - fst ` set asg"
    by (simp add: en_asg_def)
  have "set (X c) - fst ` set (pon var val asg) = (set (X c) - fst ` set asg) - {var}"
    by (auto simp: claves_pon)
  moreover have "card ((set (X c) - fst ` set asg) - {var}) < card (set (X c) - fst ` set asg)"
    by (rule card_Diff1_less) (use v in auto)
  ultimately show ?case by simp
qed

declare asignacion_grafo_restriccion.simps [simp del]

definition asignacion_completa ::
  "('x, 'v) csp \<Rightarrow> ('x, 'v) orden \<Rightarrow> int \<Rightarrow> ('x, 'v) estado \<Rightarrow>
   (error + ('x, 'v) asignacion option) \<times> ('x, 'v) estado" where
  "asignacion_completa c ord consist s =
     asignacion_grafo_restriccion c ord consist (s\<lparr>backtracking := 0\<rparr>) []"

section \<open>Local search (minimos_conflictos)\<close>

text \<open>
  \<open>random.choice(xs)\<close>: the random source is a sequence of numbers \<open>rnd\<close>, read at the
  position \<open>k\<close> (the draws made so far); an empty sequence raises IndexError.
\<close>

definition choice :: "(nat \<Rightarrow> nat) \<Rightarrow> nat \<Rightarrow> 'a list \<Rightarrow> error + 'a" where
  "choice rnd k xs = (if xs = [] then Inl IndexError else Inr (xs ! (rnd k mod length xs)))"

text \<open>
  \<open>{x: choice(list(csp.D[x])) for x in csp.X}\<close>: the dict is filled in the order
  of \<open>csp.X\<close>; the result is the dict and the number of draws made.
\<close>

fun asigna_azar ::
  "('x, 'v) orden \<Rightarrow> (nat \<Rightarrow> nat) \<Rightarrow> ('x \<Rightarrow> 'v fset) \<Rightarrow> 'x list \<Rightarrow> nat \<Rightarrow>
   ('x, 'v) asignacion \<Rightarrow> error + (('x, 'v) asignacion \<times> nat)" where
  "asigna_azar ord rnd d [] k a = Inr (a, k)"
| "asigna_azar ord rnd d (x # xs) k a =
     (case choice rnd k (iter ord (d x)) of
        Inl e \<Rightarrow> Inl e
      | Inr v \<Rightarrow> asigna_azar ord rnd d xs (Suc k) (pon x v a))"

text \<open>
  \<open>sum(not restriccion_binaria(x, v, x_j, asign[x_j]) for x_j in csp.N[x])\<close>: the read
  \<open>asign[x_j]\<close> raises KeyError at a neighbour that is not a key.
\<close>

definition n_conflictos :: "('x, 'v) csp \<Rightarrow> ('x, 'v) asignacion \<Rightarrow> 'x \<Rightarrow> 'v \<Rightarrow> nat" where
  "n_conflictos c asign x v =
     length (filter (\<lambda>x_j. \<not> restriccion_binaria c x v x_j (the (map_of asign x_j))) (N c x))"

definition cuenta_conflictos ::
  "('x, 'v) csp \<Rightarrow> ('x, 'v) asignacion \<Rightarrow> 'x \<Rightarrow> error + nat" where
  "cuenta_conflictos c asign x =
     (case map_of asign x of
        None \<Rightarrow> Inl KeyError
      | Some v \<Rightarrow>
          if list_all (\<lambda>x_j. map_of asign x_j \<noteq> None) (N c x) then Inr (n_conflictos c asign x v)
          else Inl KeyError)"

text \<open>The dict \<open>conflictos\<close> of one iteration, in the order of \<open>csp.X\<close>.\<close>

fun conflictos_mc ::
  "('x, 'v) csp \<Rightarrow> ('x, 'v) asignacion \<Rightarrow> 'x list \<Rightarrow> error + ('x \<times> nat) list" where
  "conflictos_mc c asign [] = Inr []"
| "conflictos_mc c asign (x # xs) =
     (case cuenta_conflictos c asign x of
        Inl e \<Rightarrow> Inl e
      | Inr n \<Rightarrow>
          (case conflictos_mc c asign xs of
             Inl e \<Rightarrow> Inl e
           | Inr ns \<Rightarrow> Inr ((x, n) # ns)))"

text \<open>
  The state of the loop. \<open>min_conflictos\<close> starts at the float \<open>1e10\<close>, which Python
  compares exactly with an integer; \<open>repeticiones\<close> is unbound (None) until the first
  assignment to it.
\<close>

record ('x, 'v) mc_estado =
  asign :: "('x, 'v) asignacion"
  min_conflictos :: nat
  repeticiones :: "nat option"
  sorteos :: nat

datatype ('x, 'v) paso_mc =
    Devuelve "('x, 'v) asignacion"
  | Lanza error
  | Continua "('x, 'v) mc_estado"

text \<open>
  The repair at the end of an iteration: a random variable in conflict takes the
  value of its domain with the fewest conflicts (the first one in iteration order).
  The reads \<open>asign[x_j]\<close> were already made by \<open>conflictos_mc\<close> in this iteration.
\<close>

definition repara ::
  "('x, 'v) csp \<Rightarrow> ('x, 'v) orden \<Rightarrow> (nat \<Rightarrow> nat) \<Rightarrow> ('x \<Rightarrow> 'v fset) \<Rightarrow>
   ('x \<times> nat) list \<Rightarrow> ('x, 'v) mc_estado \<Rightarrow> ('x, 'v) paso_mc" where
  "repara c ord rnd d confl st =
     (case choice rnd (sorteos st) (map fst (filter (\<lambda>(x, n). n > 0) confl)) of
        Inl e \<Rightarrow> Lanza e
      | Inr x \<Rightarrow>
          (case py_min (n_conflictos c (asign st) x) (iter ord (d x)) of
             Inl e \<Rightarrow> Lanza e
           | Inr v \<Rightarrow> Continua (st\<lparr>asign := pon x v (asign st), sorteos := Suc (sorteos st)\<rparr>)))"

definition paso_mc ::
  "('x, 'v) csp \<Rightarrow> ('x, 'v) orden \<Rightarrow> (nat \<Rightarrow> nat) \<Rightarrow> ('x \<Rightarrow> 'v fset) \<Rightarrow> int \<Rightarrow>
   ('x, 'v) mc_estado \<Rightarrow> ('x, 'v) paso_mc" where
  "paso_mc c ord rnd d paciencia st =
     (case conflictos_mc c (asign st) (X c) of
        Inl e \<Rightarrow> Lanza e
      | Inr confl \<Rightarrow>
          let actual = sum_list (map snd confl) in
          if actual = 0 then Devuelve (asign st)
          else if actual < min_conflictos st then
            repara c ord rnd d confl (st\<lparr>min_conflictos := actual, repeticiones := Some 0\<rparr>)
          else if actual = min_conflictos st then
            (case repeticiones st of
               None \<Rightarrow> Lanza UnboundLocalError
             | Some r \<Rightarrow>
                 if int (r + 1) > paciencia then
                   (case asigna_azar ord rnd d (X c) (sorteos st) [] of
                      Inl e \<Rightarrow> Lanza e
                    | Inr (a, k) \<Rightarrow>
                        Continua \<lparr>asign = a, min_conflictos = 10000000000,
                                  repeticiones = Some 0, sorteos = k\<rparr>)
                 else repara c ord rnd d confl (st\<lparr>repeticiones := Some (r + 1)\<rparr>))
          else repara c ord rnd d confl st)"

text \<open>\<open>for _ in range(max_iter)\<close>, and \<open>return None\<close> after the loop.\<close>

fun bucle_mc ::
  "('x, 'v) csp \<Rightarrow> ('x, 'v) orden \<Rightarrow> (nat \<Rightarrow> nat) \<Rightarrow> ('x \<Rightarrow> 'v fset) \<Rightarrow> int \<Rightarrow> nat \<Rightarrow>
   ('x, 'v) mc_estado \<Rightarrow> error + ('x, 'v) asignacion option" where
  "bucle_mc c ord rnd d paciencia 0 st = Inr None"
| "bucle_mc c ord rnd d paciencia (Suc n) st =
     (case paso_mc c ord rnd d paciencia st of
        Devuelve a \<Rightarrow> Inr (Some a)
      | Lanza e \<Rightarrow> Inl e
      | Continua st' \<Rightarrow> bucle_mc c ord rnd d paciencia n st')"

text \<open>The number of times the body of the loop runs.\<close>

fun iteraciones_mc ::
  "('x, 'v) csp \<Rightarrow> ('x, 'v) orden \<Rightarrow> (nat \<Rightarrow> nat) \<Rightarrow> ('x \<Rightarrow> 'v fset) \<Rightarrow> int \<Rightarrow> nat \<Rightarrow>
   ('x, 'v) mc_estado \<Rightarrow> nat" where
  "iteraciones_mc c ord rnd d paciencia 0 st = 0"
| "iteraciones_mc c ord rnd d paciencia (Suc n) st =
     (case paso_mc c ord rnd d paciencia st of
        Continua st' \<Rightarrow> Suc (iteraciones_mc c ord rnd d paciencia n st')
      | _ \<Rightarrow> Suc 0)"

definition minimos_conflictos ::
  "('x, 'v) csp \<Rightarrow> ('x, 'v) orden \<Rightarrow> (nat \<Rightarrow> nat) \<Rightarrow> ('x \<Rightarrow> 'v fset) \<Rightarrow> int \<Rightarrow> int \<Rightarrow>
   error + ('x, 'v) asignacion option" where
  "minimos_conflictos c ord rnd d max_iter paciencia =
     (case asigna_azar ord rnd d (X c) 0 [] of
        Inl e \<Rightarrow> Inl e
      | Inr (a, k) \<Rightarrow>
          bucle_mc c ord rnd d paciencia (nat max_iter)
            \<lparr>asign = a, min_conflictos = 10000000000, repeticiones = None, sorteos = k\<rparr>)"

text \<open>
  The count the value heuristic is described with: the violations that \<open>v_i\<close> causes
  against every value in the domain of each unassigned neighbour of \<open>x_i\<close>, and the
  number of those values.
\<close>

definition violaciones ::
  "('x, 'v) csp \<Rightarrow> ('x \<Rightarrow> 'v fset) \<Rightarrow> ('x, 'v) asignacion \<Rightarrow> 'x \<Rightarrow> 'v \<Rightarrow> nat" where
  "violaciones c d asg x_i v_i =
     sum_list (map (\<lambda>x_j. fcard (ffilter (\<lambda>v_j. \<not> restriccion_binaria c x_i v_i x_j v_j) (d x_j)))
                   (filter (\<lambda>x_j. \<not> en_asg x_j asg) (N c x_i)))"

definition total_vecinos ::
  "('x, 'v) csp \<Rightarrow> ('x \<Rightarrow> 'v fset) \<Rightarrow> ('x, 'v) asignacion \<Rightarrow> 'x \<Rightarrow> nat" where
  "total_vecinos c d asg x_i =
     sum_list (map (\<lambda>x_j. fcard (d x_j)) (filter (\<lambda>x_j. \<not> en_asg x_j asg) (N c x_i)))"




text \<open>
  Soundness of an assignment: for every ordered pair of assigned variables \<open>(x, y)\<close>
  with \<open>y\<close> a neighbour of \<open>x\<close>, the predicate holds on their values (the pairs that
  \<open>minimos_conflictos\<close> counts as conflicts when it does not).
\<close>

definition consistente :: "('x, 'v) csp \<Rightarrow> ('x, 'v) asignacion \<Rightarrow> bool" where
  "consistente c a =
     (\<forall>(x, v_x) \<in> set a. \<forall>(y, v_y) \<in> set a.
        y \<in> set (N c x) \<longrightarrow> restriccion_binaria c x v_x y v_y)"

text \<open>
  The contract of a constraint graph that the search relies on: a variable's
  neighbours have it as a neighbour, with a predicate that holds in both directions
  or in none, and no variable is its own neighbour.
\<close>

definition simetrico :: "('x, 'v) csp \<Rightarrow> bool" where
  "simetrico c =
     (\<forall>x \<in> set (X c). \<forall>y \<in> set (N c x).
        x \<in> set (N c y) \<and>
        (\<forall>v_x v_y. restriccion_binaria c x v_x y v_y \<longrightarrow> restriccion_binaria c y v_y x v_x))"

definition sin_lazos :: "('x, 'v) csp \<Rightarrow> bool" where
  "sin_lazos c = (\<forall>x \<in> set (X c). x \<notin> set (N c x))"

text \<open>The dict \<open>asign\<close> of the local search holds every variable once.\<close>

definition claves_ok :: "('x, 'v) csp \<Rightarrow> ('x, 'v) asignacion \<Rightarrow> bool" where
  "claves_ok c a = (distinct (map fst a) \<and> fst ` set a = set (X c))"

section \<open>Instances\<close>

text \<open>
  One legal reading of what Python leaves open: a domain is iterated in ascending
  order and \<open>pop()\<close> takes the first pair of the worklist.
\<close>

definition orden_asc :: "('x, 'v::linorder) orden" where
  "orden_asc = \<lparr>iter = sorted_list_of_fset, pop_idx = (\<lambda>_. 0)\<rparr>"

text \<open>nreinasCSP.py, class Nreinas: the variables, the neighbours and the predicate.\<close>

definition Nreinas :: "int \<Rightarrow> (int, int) csp" where
  "Nreinas n =
     \<lparr>X = [1..n],
      N = (\<lambda>x. filter (\<lambda>y. y \<noteq> x) [1..n]),
      restriccion_binaria = (\<lambda>x_i v_i x_j v_j. v_i \<noteq> v_j \<and> \<bar>v_i - v_j\<bar> \<noteq> \<bar>x_i - x_j\<bar>)\<rparr>"

text \<open>The domains that \<open>Nreinas.__init__\<close> builds, and no counter yet.\<close>

definition Nreinas_ini :: "int \<Rightarrow> (int, int) estado" where
  "Nreinas_ini n = \<lparr>D = (\<lambda>x. if x \<in> set [1..n] then fset_of_list [1..n] else {||}),
                    backtracking = 0\<rparr>"

text \<open>A single variable without neighbours.\<close>

definition una_variable :: "(nat, nat) csp" where
  "una_variable = \<lparr>X = [1], N = (\<lambda>_. []), restriccion_binaria = (\<lambda>_ _ _ _. True)\<rparr>"

text \<open>
  Four variables in a chain 1 - 2 - 3 - 4 whose values must increase along the
  chain; the predicate is symmetric.
\<close>

definition cadena :: "(nat, nat) csp" where
  "cadena =
     \<lparr>X = [1, 2, 3, 4],
      N = (\<lambda>x. if x = 1 then [2] else if x = 2 then [1, 3] else if x = 3 then [2, 4]
                else if x = 4 then [3] else []),
      restriccion_binaria = (\<lambda>x_i v_i x_j v_j. if x_i < x_j then v_i < v_j else v_j < v_i)\<rparr>"

definition cadena_D :: "nat \<Rightarrow> nat fset" where
  "cadena_D x = (if x = 1 then {|0, 1|} else if x = 2 then {|1, 2|} else if x = 3 then {|2, 3|}
                 else if x = 4 then {|3, 4|} else {||})"


text \<open>Two variables, of which only the first names the other as a neighbour.\<close>

definition asimetrico :: "(nat, nat) csp" where
  "asimetrico = \<lparr>X = [1, 2], N = (\<lambda>x. if x = 1 then [2] else []),
                 restriccion_binaria = (\<lambda>x_i v_i x_j v_j. v_i \<noteq> v_j)\<rparr>"

text \<open>Random draws that give the four queens the columns 2, 4, 1, 3.\<close>

definition azar_4reinas :: "nat \<Rightarrow> nat" where
  "azar_4reinas k = (if k = 0 then 1 else if k = 1 then 3 else if k = 2 then 0 else 2)"

section \<open>Properties\<close>

lemma sorted_list_of_fset_vacio [simp]: "sorted_list_of_fset {||} = []"
  by (simp add: sorted_list_of_fset.rep_eq)

lemma Nreinas_simetrico: "simetrico (Nreinas n)"
  by (auto simp: simetrico_def Nreinas_def)

lemma Nreinas_sin_lazos: "sin_lazos (Nreinas n)"
  by (auto simp: sin_lazos_def Nreinas_def)

subsection \<open>The worklist of level 2\<close>

text \<open>
  C4 (the code departs from it). The claim: when the revision of \<open>x\<close> against a
  neighbour removes a value of \<open>D[x]\<close>, every pair \<open>(z, x)\<close> with \<open>z\<close> an unassigned
  neighbour of \<open>x\<close> goes back into the worklist, so that \<open>z\<close> is revised again before
  the call succeeds. The code puts back the pairs \<open>(x, z)\<close> instead. In the chain, with
  \<open>D[3] = {2}\<close> and the worklist \<open>{(2, 3)}\<close>, the revision of 2 against 3 removes the
  value 2 of \<open>D[2]\<close>, and the next worklist is \<open>{(2, 1), (2, 3)}\<close>, without \<open>(1, 2)\<close>,
  whatever the order of \<open>pop()\<close>. The whole call \<open>consistencia(csp, {}, 4, 3, 2)\<close>, taking
  the pairs in the order \<open>(1, 2), (2, 1), (2, 3), ...\<close>, returns a reversal record and
  leaves \<open>D[1] = {0, 1}\<close> and \<open>D[2] = {1}\<close>: the value 1 of \<open>D[1]\<close> has no compatible
  value in \<open>D[2]\<close>.
\<close>

theorem reencola_al_reves:
  "paso_pendientes cadena ord [] [(2, 3)] (cadena_D(4 := {|3|}, 3 := {|2|})) dr =
     Sigue [(2, 1), (2, 3)] (cadena_D(4 := {|3|}, 3 := {|2|}, 2 := {|1|}))
           (dr(2 \<mapsto> (case dr 2 of None \<Rightarrow> {||} | Some s \<Rightarrow> s) |\<union>| {|2|}))
   \<and> (1, 2) \<notin> set [(2, 1), (2 :: nat, 3 :: nat)]
   \<and> (case consistencia cadena orden_asc [] 4 3 2 cadena_D of
         (None, d) \<Rightarrow> False
       | (Some dr, d) \<Rightarrow>
           d 1 = {|0, 1|} \<and> d 2 = {|1|} \<and>
           \<not> fBex (d 2) (\<lambda>v_b. restriccion_binaria cadena 1 1 2 v_b))"
proof (intro conjI)
  show "paso_pendientes cadena ord [] [(2, 3)] (cadena_D(4 := {|3|}, 3 := {|2|})) dr =
     Sigue [(2, 1), (2, 3)] (cadena_D(4 := {|3|}, 3 := {|2|}, 2 := {|1|}))
           (dr(2 \<mapsto> (case dr 2 of None \<Rightarrow> {||} | Some s \<Rightarrow> s) |\<union>| {|2|}))"
  proof -
    have vs: "sin_soporte cadena (cadena_D(4 := {|3|}, 3 := {|2|})) 2 3 = {|2|}"
      by (auto simp: sin_soporte_def cadena_def cadena_D_def)
    have d2: "cadena_D 2 = {|1, 2|}"
      by (simp add: cadena_D_def)
    have re: "reencola cadena [] 2 [] = [(2, 1), (2, 3)]"
      by (simp add: reencola_def cadena_def en_asg_def)
    have m: "{|Suc 0, 2|} |-| {|2|} = {|Suc 0|}" by auto
    have n: "\<not> {|1, 2|} |\<subseteq>| {|2 :: nat|}" by auto
    show ?thesis
      by (simp add: paso_pendientes_def saca_def vs d2 re m n Let_def)
  qed
  show "(1, 2) \<notin> set [(2, 1), (2 :: nat, 3 :: nat)]" by simp
  show "case consistencia cadena orden_asc [] 4 3 2 cadena_D of
         (None, d) \<Rightarrow> False
       | (Some dr, d) \<Rightarrow>
           d 1 = {|0, 1|} \<and> d 2 = {|1|} \<and>
           \<not> fBex (d 2) (\<lambda>v_b. restriccion_binaria cadena 1 1 2 v_b)"
    by code_simp
qed

subsection \<open>Empty domains\<close>

text \<open>
  C7 (the code departs from it). The claim: with a variable whose domain is empty at
  the start, both entry points return None instead of raising. On the graph with
  the single variable 1 and \<open>D[1] = set()\<close>, \<open>asignacion_completa\<close> returns None at
  every level, but \<open>minimos_conflictos\<close> raises IndexError: its first statement calls
  \<open>choice\<close> on the empty list, for every \<open>max_iter\<close> and \<open>paciencia\<close>.
\<close>

theorem minimos_conflictos_dominio_vacio:
  "minimos_conflictos una_variable orden_asc rnd (\<lambda>_. {||}) max_iter paciencia = Inl IndexError
   \<and> fst (asignacion_completa una_variable orden_asc nivel \<lparr>D = (\<lambda>_. {||}), backtracking = b\<rparr>)
       = Inr None"
  by (simp add: minimos_conflictos_def choice_def asignacion_completa_def
      asignacion_grafo_restriccion.simps una_variable_def orden_asc_def
      selecciona_variable_def ordena_valores_def py_sorted_reverse_def)

subsection \<open>The value heuristic\<close>

lemma fcard_ffilter_split: "fcard (ffilter P A) + fcard (ffilter (\<lambda>x. \<not> P x) A) = fcard A"
proof -
  have "ffilter P A |\<union>| ffilter (\<lambda>x. \<not> P x) A = A" by auto
  moreover have "ffilter P A |\<inter>| ffilter (\<lambda>x. \<not> P x) A = {||}" by auto
  ultimately show ?thesis by (metis fcard_funion_disjoint)
qed

lemma conflictos_violaciones:
  "conflictos c d asg x_i v + violaciones c d asg x_i v = total_vecinos c d asg x_i"
  unfolding conflictos_def violaciones_def total_vecinos_def
  by (induction "filter (\<lambda>x_j. \<not> en_asg x_j asg) (N c x_i)")
     (auto simp: fcard_ffilter_split sum_list_addf[symmetric] simp del: sum_list_addf)

lemma py_sorted_reverse_desc:
  assumes "\<And>v. f v + g v = (t::nat)"
  shows "sorted (map g (py_sorted_reverse f xs))"
proof -
  have "sorted_wrt (\<lambda>x y. f x \<le> f y) (sort_key f (rev xs))"
    using sorted_sort_key[of f "rev xs"] by (simp add: sorted_map)
  then have "sorted_wrt (\<lambda>x y. g y \<le> g x) (sort_key f (rev xs))"
  proof (rule sorted_wrt_mono_rel[rotated])
    fix x y assume "f x \<le> f y"
    then show "g y \<le> g x" using assms[of x] assms[of y] by linarith
  qed
  then show ?thesis
    by (simp add: py_sorted_reverse_def sorted_map sorted_wrt_rev)
qed

lemma py_sorted_reverse_mset: "mset (py_sorted_reverse f xs) = mset xs"
  by (simp add: py_sorted_reverse_def)

lemma py_sorted_reverse_estable:
  assumes "\<And>v. f v + g v = (t::nat)"
  shows "filter (\<lambda>v. g v = k) (py_sorted_reverse f xs) = filter (\<lambda>v. g v = k) xs"
proof -
  have eq: "(\<lambda>v. g v = k) = (\<lambda>v. k \<le> t \<and> f v = t - k)"
  proof
    fix v show "(g v = k) = (k \<le> t \<and> f v = t - k)" using assms[of v] by auto
  qed
  show ?thesis
  proof (cases "k \<le> t")
    case True
    then have "filter (\<lambda>v. g v = k) ys = filter (\<lambda>v. f v = t - k) ys" for ys
      by (simp add: eq)
    then show ?thesis
      by (simp add: py_sorted_reverse_def sort_key_stable flip: rev_filter)
  next
    case False
    then show ?thesis by (simp add: eq)
  qed
qed

text \<open>
  C6. \<open>ordena_valores\<close> returns the values of \<open>list(csp.D[x_i])\<close> in ascending order of
  the number of violations against the values of the unassigned neighbours (the code
  sorts in descending order of the number of compatible pairs, which is the same
  order), and values with the same count keep the order in which the domain is
  enumerated.
\<close>

theorem ordena_valores_menos_restrictivo:
  "sorted (map (violaciones c d asg x_i) (ordena_valores c ord d asg x_i))
   \<and> mset (ordena_valores c ord d asg x_i) = mset (iter ord (d x_i))
   \<and> filter (\<lambda>v. violaciones c d asg x_i v = k) (ordena_valores c ord d asg x_i)
       = filter (\<lambda>v. violaciones c d asg x_i v = k) (iter ord (d x_i))"
proof -
  let ?f = "conflictos c d asg x_i" and ?g = "violaciones c d asg x_i"
  have fg: "\<And>v. ?f v + ?g v = total_vecinos c d asg x_i"
    by (rule conflictos_violaciones)
  show ?thesis
    unfolding ordena_valores_def
    using py_sorted_reverse_desc[of ?f ?g, OF fg] py_sorted_reverse_estable[of ?f ?g, OF fg]
    by (simp add: py_sorted_reverse_mset)
qed

subsection \<open>Restoring the domains\<close>








lemma para_cada_regla:
  assumes "Q s"
    and "\<And>v t t'. v \<in> set vs \<Longrightarrow> Q t \<Longrightarrow> cuerpo v t = (None, t') \<Longrightarrow> Q t'"
    and "\<And>v t r t'. v \<in> set vs \<Longrightarrow> Q t \<Longrightarrow> cuerpo v t = (Some r, t') \<Longrightarrow> R (Some r) t'"
    and "\<And>t. Q t \<Longrightarrow> R None t"
    and "para_cada vs cuerpo s = (res, s')"
  shows "R res s'"
  using assms
proof (induction vs arbitrary: s)
  case Nil
  then show ?case by auto
next
  case (Cons v vs)
  obtain r t where b: "cuerpo v s = (r, t)" by (metis prod.exhaust)
  show ?case
  proof (cases r)
    case None
    with b Cons.prems(5) have rec: "para_cada vs cuerpo t = (res, s')" by simp
    have "Q t" using Cons.prems(2)[of v s t] Cons.prems(1) b None by simp
    then show ?thesis
    proof (rule Cons.IH)
      show "\<And>v' t t'. v' \<in> set vs \<Longrightarrow> Q t \<Longrightarrow> cuerpo v' t = (None, t') \<Longrightarrow> Q t'"
        using Cons.prems(2) by auto
      show "\<And>v' t r t'. v' \<in> set vs \<Longrightarrow> Q t \<Longrightarrow> cuerpo v' t = (Some r, t') \<Longrightarrow> R (Some r) t'"
        using Cons.prems(3) by auto
      show "\<And>t. Q t \<Longrightarrow> R None t" using Cons.prems(4) by auto
      show "para_cada vs cuerpo t = (res, s')" by (rule rec)
    qed
  next
    case (Some a)
    with b Cons.prems(5) have "res = Some a" "s' = t" by auto
    with Cons.prems(3)[of v s a t] Cons.prems(1) b Some show ?thesis by simp
  qed
qed


lemma set_pon_libre: "\<not> en_asg k asg \<Longrightarrow> set (pon k v asg) = insert (k, v) (set asg)"
  by (simp add: pon_libre)









lemma consistencia_no_choca:
  "consistencia c ord asg x_i v_i nivel d = (Some dr, d') \<Longrightarrow> \<not> choca_asignados c asg x_i v_i"
  by (auto simp: consistencia_def)

lemma agr_invariante:
  assumes "\<And>asg var val. I asg \<Longrightarrow> \<not> en_asg var asg \<Longrightarrow> var \<in> set (X c) \<Longrightarrow>
              \<not> choca_asignados c asg var val \<Longrightarrow> I (pon var val asg)"
    and "I asg"
    and "asignacion_grafo_restriccion c ord nivel s asg = (Inr (Some a), s')"
  shows "I a \<and> fst ` set a = set (X c)"
  using assms
proof (induction c ord nivel s asg arbitrary: a s' rule: asignacion_grafo_restriccion.induct)
  case (1 c ord consist s asg)
  note paso = "1.prems"(1) and inv = "1.prems"(2) and run = "1.prems"(3)
  show ?case
  proof (cases "fst ` set asg = set (X c)")
    case True
    with run inv show ?thesis by (auto simp: asignacion_grafo_restriccion.simps)
  next
    case incompleta: False
    show ?thesis
    proof (cases "selecciona_variable c (D s) asg")
      case (Inl e)
      with incompleta run show ?thesis by (simp add: asignacion_grafo_restriccion.simps)
    next
      case (Inr var)
      note libre = selecciona_variable_libre[OF Inr]
      let ?vals = "ordena_valores c ord (D s) asg var"
      let ?cuerpo = "\<lambda>val s1.
                     case consistencia c ord asg var val consist (D s1) of
                       (None, d2) \<Rightarrow> (None, s1\<lparr>D := d2, backtracking := backtracking s1 + 1\<rparr>)
                     | (Some dominio_reducido, d2) \<Rightarrow>
                         (case asignacion_grafo_restriccion c ord consist (s1\<lparr>D := d2\<rparr>)
                                 (pon var val asg) of
                            (Inl e, s3) \<Rightarrow> (Some (Inl e), s3)
                          | (Inr apn, s3) \<Rightarrow>
                              let s4 = s3\<lparr>D := restaura (D s3) dominio_reducido\<rparr>
                              in (case apn of
                                    Some a \<Rightarrow> (Some (Inr a), s4)
                                  | None \<Rightarrow> (None, s4)))"
      obtain r t where bucle: "para_cada ?vals ?cuerpo s = (r, t)"
        by (cases "para_cada ?vals ?cuerpo s") blast
      have "\<forall>b. r = Some (Inr b) \<longrightarrow> I b \<and> fst ` set b = set (X c)"
      proof (rule para_cada_regla[where Q = "\<lambda>t. True"
              and R = "\<lambda>r t. \<forall>b. r = Some (Inr b) \<longrightarrow> I b \<and> fst ` set b = set (X c)",
            OF _ _ _ _ bucle])
        fix val r' and t t' :: "('a, 'b) estado"
        assume val: "val \<in> set ?vals" and b: "?cuerpo val t = (Some r', t')"
        obtain cr d2 where co: "consistencia c ord asg var val consist (D t) = (cr, d2)"
          by (cases "consistencia c ord asg var val consist (D t)") blast
        show "\<forall>b. Some r' = Some (Inr b) \<longrightarrow> I b \<and> fst ` set b = set (X c)"
        proof (cases cr)
          case None
          with b co show ?thesis by simp
        next
          case (Some dr)
          obtain rr s3 where rec: "asignacion_grafo_restriccion c ord consist (t\<lparr>D := d2\<rparr>)
                                 (pon var val asg) = (rr, s3)"
            by (cases "asignacion_grafo_restriccion c ord consist (t\<lparr>D := d2\<rparr>) (pon var val asg)") blast
          have inv': "I (pon var val asg)"
            by (rule paso[OF inv libre(2) libre(1)]) (use co Some consistencia_no_choca in fast)
          show ?thesis
          proof (intro allI impI)
            fix sol assume "Some r' = Some (Inr sol)"
            with b have "rr = Inr (Some sol)"
              by (cases rr) (auto simp: co Some rec Let_def split: option.splits)
            with rec have rec': "asignacion_grafo_restriccion c ord consist (t\<lparr>D := d2\<rparr>)
                                 (pon var val asg) = (Inr (Some sol), s3)" by simp
            show "I sol \<and> fst ` set sol = set (X c)"
              by (rule "1.IH"[OF incompleta Inr val co[symmetric] Some _ inv' rec']) (rule paso)
          qed
        qed
      qed simp_all
      moreover from run incompleta Inr bucle
      have "(Inr (Some a), s') = (case (r, t) of
             (Some (Inl e), s') \<Rightarrow> (Inl e, s')
           | (Some (Inr a), s') \<Rightarrow> (Inr (Some a), s')
           | (None, s') \<Rightarrow> (Inr None, s'\<lparr>backtracking := backtracking s' + 1\<rparr>))"
        by (simp add: asignacion_grafo_restriccion.simps)
      then have "r = Some (Inr a)"
        by (cases r) (auto split: sum.splits)
      ultimately show ?thesis by simp
    qed
  qed
qed

lemma Nreinas4_nivel1:
  "fst (asignacion_completa (Nreinas 4) orden_asc 1 (Nreinas_ini 4))
     = Inr (Some [(1, 2), (2, 4), (3, 1), (4, 3)])"
  by code_simp







subsection \<open>Soundness of the returned assignment\<close>

lemma consistente_pon:
  assumes sim: "simetrico c" and sl: "sin_lazos c"
    and con: "consistente c asg \<and> fst ` set asg \<subseteq> set (X c)"
    and libre: "\<not> en_asg var asg" and var: "var \<in> set (X c)"
    and nc: "\<not> choca_asignados c asg var val"
  shows "consistente c (pon var val asg) \<and> fst ` set (pon var val asg) \<subseteq> set (X c)"
proof
  have nuevo: "\<And>y v_y. (y, v_y) \<in> set asg \<Longrightarrow> y \<in> set (N c var) \<Longrightarrow>
      restriccion_binaria c var val y v_y"
    using nc by (auto simp: choca_asignados_def list_ex_iff)
  have viejo: "\<And>x v_x. (x, v_x) \<in> set asg \<Longrightarrow> var \<in> set (N c x) \<Longrightarrow>
      restriccion_binaria c x v_x var val"
  proof -
    fix x v_x assume a: "(x, v_x) \<in> set asg" and n: "var \<in> set (N c x)"
    from a con have x: "x \<in> set (X c)" by force
    from x n sim have xn: "x \<in> set (N c var)" by (auto simp: simetrico_def)
    from sim var xn nuevo[OF a xn] show "restriccion_binaria c x v_x var val"
      unfolding simetrico_def by blast
  qed
  have propio: "var \<notin> set (N c var)" using sl var by (simp add: sin_lazos_def)
  show "consistente c (pon var val asg)"
    unfolding consistente_def set_pon_libre[OF libre]
    using con nuevo viejo propio by (auto simp: consistente_def)
  show "fst ` set (pon var val asg) \<subseteq> set (X c)"
    using con var by (simp add: claves_pon)
qed

lemma distinct_pon: "distinct (map fst a) \<Longrightarrow> distinct (map fst (pon k v a))"
  by (induction a) (auto simp: claves_pon)

lemma asigna_azar_claves:
  "asigna_azar ord rnd d xs k a0 = Inr (a, k') \<Longrightarrow> distinct (map fst a0) \<Longrightarrow>
     distinct (map fst a) \<and> fst ` set a = fst ` set a0 \<union> set xs"
proof (induction xs arbitrary: k a0)
  case Nil
  then show ?case by simp
next
  case (Cons x xs)
  from Cons.prems(1) obtain v where
    a1: "asigna_azar ord rnd d xs (Suc k) (pon x v a0) = Inr (a, k')"
    by (auto split: sum.splits)
  from Cons.IH[OF a1 distinct_pon[OF Cons.prems(2)]] show ?case by (auto simp: claves_pon)
qed

lemma conflictos_mc_claves: "conflictos_mc c a xs = Inr confl \<Longrightarrow> map fst confl = xs"
  by (induction xs arbitrary: confl) (auto split: sum.splits)

lemma conflictos_mc_cero:
  assumes "conflictos_mc c a xs = Inr confl" and "sum_list (map snd confl) = 0" and "x \<in> set xs"
  shows "\<exists>v. map_of a x = Some v \<and>
           (\<forall>y \<in> set (N c x). \<exists>w. map_of a y = Some w \<and> restriccion_binaria c x v y w)"
  using assms
proof (induction xs arbitrary: confl)
  case Nil
  then show ?case by simp
next
  case (Cons z xs)
  from Cons.prems(1) obtain n ns where n: "cuenta_conflictos c a z = Inr n"
    and ns: "conflictos_mc c a xs = Inr ns" and confl: "confl = (z, n) # ns"
    by (auto split: sum.splits)
  from Cons.prems(2) confl have n0: "n = 0" and ns0: "sum_list (map snd ns) = 0" by auto
  show ?case
  proof (cases "x = z")
    case True
    from n n0 obtain v where v: "map_of a z = Some v"
      and todos: "list_all (\<lambda>x_j. map_of a x_j \<noteq> None) (N c z)"
      and cero: "n_conflictos c a z v = 0"
      by (auto simp: cuenta_conflictos_def split: option.splits if_splits)
    have "\<exists>w. map_of a y = Some w \<and> restriccion_binaria c z v y w" if "y \<in> set (N c z)" for y
    proof -
      from todos that obtain w where w: "map_of a y = Some w" by (auto simp: list_all_iff)
      from cero that have "restriccion_binaria c z v y (the (map_of a y))"
        by (auto simp: n_conflictos_def filter_empty_conv)
      with w show ?thesis by simp
    qed
    with v True show ?thesis by blast
  next
    case False
    with Cons.prems(3) have "x \<in> set xs" by simp
    from Cons.IH[OF ns ns0 this] show ?thesis .
  qed
qed

lemma cero_consistente:
  assumes "claves_ok c a" and "conflictos_mc c a (X c) = Inr confl"
    and "sum_list (map snd confl) = 0"
  shows "consistente c a"
  unfolding consistente_def
proof (intro ballI, clarify)
  fix x v_x y v_y
  assume x: "(x, v_x) \<in> set a" and y: "(y, v_y) \<in> set a" and n: "y \<in> set (N c x)"
  from assms(1) have dist: "distinct (map fst a)" and claves: "fst ` set a = set (X c)"
    by (auto simp: claves_ok_def)
  from x claves have "x \<in> set (X c)" by force
  from conflictos_mc_cero[OF assms(2,3) this] n obtain v w where
    "map_of a x = Some v" "map_of a y = Some w" "restriccion_binaria c x v y w" by blast
  moreover from dist x have "map_of a x = Some v_x" by simp
  moreover from dist y have "map_of a y = Some v_y" by simp
  ultimately show "restriccion_binaria c x v_x y v_y" by simp
qed

lemma choice_in: "choice rnd k xs = Inr x \<Longrightarrow> x \<in> set xs"
  by (auto simp: choice_def split: if_splits)

lemma repara_claves:
  assumes "claves_ok c (asign st)" and "map fst confl = X c"
    and "repara c ord rnd d confl st = Continua st'"
  shows "claves_ok c (asign st')"
proof -
  from assms(3) obtain x v where
    x: "choice rnd (sorteos st) (map fst (filter (\<lambda>(x, n). n > 0) confl)) = Inr x"
    and st': "st' = st\<lparr>asign := pon x v (asign st), sorteos := Suc (sorteos st)\<rparr>"
    by (auto simp: repara_def split: sum.splits)
  from choice_in[OF x] have "x \<in> set (map fst confl)" by auto
  with assms(2) have "x \<in> set (X c)" by simp
  with assms(1) show ?thesis
    by (auto simp: st' claves_ok_def distinct_pon claves_pon)
qed

lemma paso_mc_claves:
  assumes "claves_ok c (asign st)" and "paso_mc c ord rnd d paciencia st = Continua st'"
  shows "claves_ok c (asign st')"
proof -
  from assms(2) obtain confl where confl: "conflictos_mc c (asign st) (X c) = Inr confl"
    by (auto simp: paso_mc_def split: sum.splits)
  note cl = conflictos_mc_claves[OF confl]
  let ?actual = "sum_list (map snd confl)"
  have rep: "claves_ok c (asign st')"
    if "asign st0 = asign st" and "repara c ord rnd d confl st0 = Continua st'" for st0
    by (rule repara_claves[OF _ cl that(2)]) (simp add: that(1) assms(1))
  from assms(2) confl have paso: "(if ?actual = 0 then Devuelve (asign st)
          else if ?actual < min_conflictos st then
            repara c ord rnd d confl (st\<lparr>min_conflictos := ?actual, repeticiones := Some 0\<rparr>)
          else if ?actual = min_conflictos st then
            (case repeticiones st of
               None \<Rightarrow> Lanza UnboundLocalError
             | Some r \<Rightarrow>
                 if int (r + 1) > paciencia then
                   (case asigna_azar ord rnd d (X c) (sorteos st) [] of
                      Inl e \<Rightarrow> Lanza e
                    | Inr (a, k) \<Rightarrow>
                        Continua \<lparr>asign = a, min_conflictos = 10000000000,
                                  repeticiones = Some 0, sorteos = k\<rparr>)
                 else repara c ord rnd d confl (st\<lparr>repeticiones := Some (r + 1)\<rparr>))
          else repara c ord rnd d confl st) = Continua st'"
    by (simp add: paso_mc_def Let_def)
  show ?thesis
  proof (cases "?actual < min_conflictos st")
    case True
    with paso have "repara c ord rnd d confl (st\<lparr>min_conflictos := ?actual, repeticiones := Some 0\<rparr>)
        = Continua st'" by (simp split: if_splits)
    then show ?thesis by (rule rep[rotated]) simp
  next
    case menor: False
    show ?thesis
    proof (cases "?actual = min_conflictos st")
      case False
      with menor paso have "repara c ord rnd d confl st = Continua st'" by (simp split: if_splits)
      then show ?thesis by (rule rep[rotated]) simp
    next
      case True
      with menor paso obtain r where r: "repeticiones st = Some r"
        by (cases "repeticiones st") (auto split: if_splits)
      show ?thesis
      proof (cases "int (r + 1) > paciencia")
        case False
        with menor True r paso
        have "repara c ord rnd d confl (st\<lparr>repeticiones := Some (r + 1)\<rparr>) = Continua st'"
          by (simp split: if_splits)
        then show ?thesis by (rule rep[rotated]) simp
      next
        case reinicia: True
        with menor True r paso obtain a k where
          az: "asigna_azar ord rnd d (X c) (sorteos st) [] = Inr (a, k)" and "asign st' = a"
          by (auto split: if_splits sum.splits)
        with asigna_azar_claves[OF az] show ?thesis by (simp add: claves_ok_def)
      qed
    qed
  qed
qed

lemma paso_mc_devuelve:
  assumes "claves_ok c (asign st)" and "paso_mc c ord rnd d paciencia st = Devuelve a"
  shows "consistente c a \<and> claves_ok c a"
proof -
  from assms(2) obtain confl where confl: "conflictos_mc c (asign st) (X c) = Inr confl"
    by (auto simp: paso_mc_def split: sum.splits)
  have nr: "repara c ord rnd d confl st0 \<noteq> Devuelve a" for st0
    by (auto simp: repara_def split: sum.splits)
  from assms(2) confl nr have "a = asign st" "sum_list (map snd confl) = 0"
    by (auto simp: paso_mc_def Let_def split: if_splits option.splits sum.splits)
  with cero_consistente[OF assms(1) confl] assms(1) show ?thesis by simp
qed

lemma bucle_mc_consistente:
  assumes "claves_ok c (asign st)" and "bucle_mc c ord rnd d paciencia n st = Inr (Some a)"
  shows "consistente c a \<and> claves_ok c a"
  using assms
proof (induction n arbitrary: st)
  case 0
  then show ?case by simp
next
  case (Suc n)
  show ?case
  proof (cases "paso_mc c ord rnd d paciencia st")
    case (Devuelve b)
    with Suc.prems(2) have "b = a" by simp
    with paso_mc_devuelve[OF Suc.prems(1) Devuelve] show ?thesis by simp
  next
    case (Lanza e)
    with Suc.prems(2) show ?thesis by simp
  next
    case (Continua st')
    with Suc.prems(2) have "bucle_mc c ord rnd d paciencia n st' = Inr (Some a)" by simp
    from Suc.IH[OF paso_mc_claves[OF Suc.prems(1) Continua] this] show ?thesis .
  qed
qed

lemma minimos_conflictos_consistente:
  assumes "minimos_conflictos c ord rnd d max_iter paciencia = Inr (Some a)"
  shows "consistente c a \<and> claves_ok c a"
proof -
  from assms obtain a0 k where ini: "asigna_azar ord rnd d (X c) 0 [] = Inr (a0, k)"
    and b: "bucle_mc c ord rnd d paciencia (nat max_iter)
            \<lparr>asign = a0, min_conflictos = 10000000000, repeticiones = None, sorteos = k\<rparr> = Inr (Some a)"
    by (auto simp: minimos_conflictos_def split: sum.splits)
  from asigna_azar_claves[OF ini] have "claves_ok c (asign \<lparr>asign = a0, min_conflictos = 10000000000,
      repeticiones = None, sorteos = k\<rparr>)" by (simp add: claves_ok_def)
  from bucle_mc_consistente[OF this b] show ?thesis .
qed

text \<open>
  C1 (as amended). On a graph whose neighbour map and predicate are symmetric and
  where no variable is its own neighbour, an assignment returned by
  \<open>asignacion_completa\<close> (at any level) or by \<open>minimos_conflictos\<close> covers the variables
  of the graph and satisfies the predicate on every pair of neighbouring variables.
  (For \<open>minimos_conflictos\<close> this holds on every graph.)
\<close>

theorem solucion_consistente:
  assumes "simetrico c" and "sin_lazos c"
  shows "(fst (asignacion_completa c ord nivel s) = Inr (Some a) \<longrightarrow>
            consistente c a \<and> fst ` set a = set (X c))
       \<and> (minimos_conflictos c ord rnd d max_iter paciencia = Inr (Some a') \<longrightarrow>
            consistente c a' \<and> fst ` set a' = set (X c))"
proof (intro conjI impI)
  assume r: "fst (asignacion_completa c ord nivel s) = Inr (Some a)"
  then obtain s' where
    agr: "asignacion_grafo_restriccion c ord nivel (s\<lparr>backtracking := 0\<rparr>) [] = (Inr (Some a), s')"
    by (cases "asignacion_completa c ord nivel s") (auto simp: asignacion_completa_def)
  have "(consistente c a \<and> fst ` set a \<subseteq> set (X c)) \<and> fst ` set a = set (X c)"
  proof (rule agr_invariante[where I = "\<lambda>a. consistente c a \<and> fst ` set a \<subseteq> set (X c)", OF _ _ agr])
    show "consistente c [] \<and> fst ` set [] \<subseteq> set (X c)" by (simp add: consistente_def)
  next
    fix asg var val
    assume "consistente c asg \<and> fst ` set asg \<subseteq> set (X c)" "\<not> en_asg var asg"
      "var \<in> set (X c)" "\<not> choca_asignados c asg var val"
    then show "consistente c (pon var val asg) \<and> fst ` set (pon var val asg) \<subseteq> set (X c)"
      by (rule consistente_pon[OF assms])
  qed
  then show "consistente c a" and "fst ` set a = set (X c)" by simp_all
next
  assume "minimos_conflictos c ord rnd d max_iter paciencia = Inr (Some a')"
  from minimos_conflictos_consistente[OF this]
  show "consistente c a'" and "fst ` set a' = set (X c)" by (simp_all add: claves_ok_def)
qed

lemma Nreinas4_azar:
  "asigna_azar orden_asc azar_4reinas (D (Nreinas_ini 4)) (X (Nreinas 4)) 0 []
     = Inr ([(1, 2), (2, 4), (3, 1), (4, 3)], 4)"
  by code_simp

lemma Nreinas4_sin_conflictos:
  "conflictos_mc (Nreinas 4) [(1, 2), (2, 4), (3, 1), (4, 3)] (X (Nreinas 4))
     = Inr [(1, 0), (2, 0), (3, 0), (4, 0)]"
  by code_simp

lemma bucle_mc_devuelve:
  "paso_mc c ord rnd d paciencia st = Devuelve a \<Longrightarrow> 0 < n \<Longrightarrow>
     bucle_mc c ord rnd d paciencia n st = Inr (Some a)"
  by (cases n) simp_all

lemma Nreinas4_minimos_conflictos:
  "minimos_conflictos (Nreinas 4) orden_asc azar_4reinas (D (Nreinas_ini 4)) 100 5
     = Inr (Some [(1, 2), (2, 4), (3, 1), (4, 3)])"
proof -
  have "bucle_mc (Nreinas 4) orden_asc azar_4reinas (D (Nreinas_ini 4)) 5 (nat 100)
      \<lparr>asign = [(1, 2), (2, 4), (3, 1), (4, 3)], min_conflictos = 10000000000,
         repeticiones = None, sorteos = 4\<rparr> = Inr (Some [(1, 2), (2, 4), (3, 1), (4, 3)])"
    by (rule bucle_mc_devuelve) (simp_all add: paso_mc_def Nreinas4_sin_conflictos)
  then show ?thesis
    by (simp add: minimos_conflictos_def Nreinas4_azar)
qed

theorem solucion_consistente_witness:
  "simetrico (Nreinas 4) \<and> sin_lazos (Nreinas 4)
   \<and> fst (asignacion_completa (Nreinas 4) orden_asc 1 (Nreinas_ini 4))
       = Inr (Some [(1, 2), (2, 4), (3, 1), (4, 3)])
   \<and> minimos_conflictos (Nreinas 4) orden_asc azar_4reinas (D (Nreinas_ini 4)) 100 5
       = Inr (Some [(1, 2), (2, 4), (3, 1), (4, 3)])
   \<and> consistente (Nreinas 4) [(1, 2), (2, 4), (3, 1), (4, 3)]
   \<and> fst ` set [(1 :: int, 2 :: int), (2, 4), (3, 1), (4, 3)] = set (X (Nreinas 4))"
proof -
  note th = solucion_consistente[OF Nreinas_simetrico Nreinas_sin_lazos, of 4 orden_asc 1 "Nreinas_ini 4"
      "[(1, 2), (2, 4), (3, 1), (4, 3)]" azar_4reinas "D (Nreinas_ini 4)" 100 5
      "[(1, 2), (2, 4), (3, 1), (4, 3)]"]
  from th have "consistente (Nreinas 4) [(1, 2), (2, 4), (3, 1), (4, 3)]
       \<and> fst ` set [(1 :: int, 2 :: int), (2, 4), (3, 1), (4, 3)] = set (X (Nreinas 4))"
    using Nreinas4_nivel1 by blast
  then show ?thesis
    using Nreinas_simetrico Nreinas_sin_lazos Nreinas4_nivel1 Nreinas4_minimos_conflictos by blast
qed

text \<open>
  C1 as stated fails when the neighbour map is not symmetric: with \<open>X = {1, 2}\<close>,
  \<open>N = {1: {2}, 2: set()}\<close>, \<open>D[1] = D[2] = {1}\<close> and the predicate \<open>v_i != v_j\<close>,
  \<open>asignacion_completa\<close> at level 0 returns \<open>{1: 1, 2: 1}\<close>, although 2 is a neighbour
  of 1 and the predicate fails on their values: level 0 only checks a new variable
  against the assigned variables in its own neighbour set.
\<close>

theorem solucion_inconsistente_asimetrico:
  "fst (asignacion_completa asimetrico orden_asc 0 \<lparr>D = (\<lambda>_. {|1|}), backtracking = 0\<rparr>)
     = Inr (Some [(1, 1), (2, 1)])
   \<and> 2 \<in> set (N asimetrico 1)
   \<and> \<not> restriccion_binaria asimetrico 1 1 2 1
   \<and> \<not> consistente asimetrico [(1, 1), (2, 1)]"
  by code_simp

end
